theory Spec2Isabelle
  imports Complex_Main
begin

section \<open>Data model\<close>

text \<open>
  The package \<^verbatim>\<open>httpx\<close> layers a retry executor and a chain of middlewares around
  an \<^verbatim>\<open>http.RoundTripper\<close>. Durations and instants are whole nanoseconds
  (\<^verbatim>\<open>time.Duration\<close> is an \<^verbatim>\<open>int64\<close>), modelled as \<open>int\<close>; Go's \<^verbatim>\<open>int\<close>
  (attempt counters, status codes) is modelled as \<open>int\<close> as well: no arithmetic of the
  modelled code leaves the 64-bit range for counters, since the loop returns at
  \<^verbatim>\<open>attempt == rt.maxRetries\<close> before it increments.
\<close>

text \<open>
  Go's \<^verbatim>\<open>error\<close> interface: the two errors of package \<^verbatim>\<open>context\<close>, and any
  other error, which here is an error surfaced by the inner transport.
\<close>

datatype error = Canceled | DeadlineExceeded | TransportError string

text \<open>
  A \<^verbatim>\<open>context.Context\<close> as seen by this package: it is only asked \<^verbatim>\<open>Err()\<close>
  and \<^verbatim>\<open>Done()\<close>. The context is described by what a reader observes: the instant
  from which \<^verbatim>\<open>Err()\<close> is not nil and \<^verbatim>\<open>Done()\<close> is closed (\<open>None\<close>: never),
  and the error it reports from then on. For a context with a deadline that instant is
  the one at which the deadline's timer has run and marked the context, at or after the
  deadline; for a context cancelled from elsewhere it is the instant the cancel took
  effect. A run in which \<^verbatim>\<open>Err()\<close> is still nil when read at the deadline itself is
  a run of a context whose \<open>done_at\<close> lies after the deadline.
\<close>

record Context =
  done_at :: "int option"
  done_err :: error

text \<open>
  \<^verbatim>\<open>http.Response\<close>: the status code and the body, a stream identified by a
  number (\<open>None\<close> is a nil \<^verbatim>\<open>Body\<close>). \<^verbatim>\<open>http.Request\<close>: method, target,
  header lines in order, and the context.
\<close>

record Response =
  StatusCode :: int
  Body :: "nat option"

record Request =
  Method :: string
  URL :: string
  Header :: "(string \<times> string) list"
  ctx :: Context

text \<open>The pair \<^verbatim>\<open>(*http.Response, error)\<close>; \<open>None\<close> is \<^verbatim>\<open>nil\<close>.\<close>

type_synonym result = "Response option \<times> error option"

type_synonym RetryConditionFunc = "Response option \<Rightarrow> error option \<Rightarrow> bool"

section \<open>The default retry predicate\<close>

text \<open>\<^verbatim>\<open>DefaultRetryIf\<close>, retry.go lines 13 to 22.\<close>

definition DefaultRetryIf :: RetryConditionFunc where
  "DefaultRetryIf resp err =
     (if err \<noteq> None then True
      else if resp = None then False
      else StatusCode (the resp) \<ge> 500 \<or> StatusCode (the resp) = 429)"

section \<open>The backoff calculator\<close>

text \<open>
  \<^verbatim>\<open>calculateBackoff\<close>, retry.go lines 75 to 89, computes in \<^verbatim>\<open>float64\<close>. A
  \<^verbatim>\<open>float64\<close> is a finite number, an infinity or NaN. The model keeps the special
  values and the overflow to an infinity, and leaves out the rounding of finite results:
  a finite result is the exact real number. The conversion of a duration to
  \<^verbatim>\<open>float64\<close> is exact up to \<open>2 ^ 53\<close> nanoseconds (about 104 days) in absolute
  value, multiplying by a power of two is exact, and for durations up to \<open>2 ^ 53\<close> a
  product with a power of two is finite in \<^verbatim>\<open>float64\<close> exactly when it is below
  \<open>2 ^ 1024\<close>; the theorems below that give values are stated for durations in that
  range. The draw of \<^verbatim>\<open>rand.Float64()\<close>, a number in \<open>[0, 1)\<close>, is a parameter.
\<close>

datatype float64 = Finite real | PosInf | NegInf | NaN

text \<open>A real result as a \<^verbatim>\<open>float64\<close>: beyond the finite range it is an infinity.\<close>

definition result64 :: "real \<Rightarrow> float64" where
  "result64 x =
     (if 2 ^ 1024 \<le> x then PosInf else if x \<le> - (2 ^ 1024) then NegInf else Finite x)"

text \<open>
  Multiplication, addition and \<^verbatim>\<open>>\<close> of IEEE 754: NaN propagates, zero times an
  infinity and the sum of opposite infinities are NaN, every comparison with NaN is false.
\<close>

fun f_mul :: "float64 \<Rightarrow> float64 \<Rightarrow> float64" where
  "f_mul NaN y = NaN"
| "f_mul x NaN = NaN"
| "f_mul (Finite a) (Finite b) = result64 (a * b)"
| "f_mul (Finite a) PosInf = (if a = 0 then NaN else if 0 < a then PosInf else NegInf)"
| "f_mul (Finite a) NegInf = (if a = 0 then NaN else if 0 < a then NegInf else PosInf)"
| "f_mul PosInf (Finite b) = (if b = 0 then NaN else if 0 < b then PosInf else NegInf)"
| "f_mul NegInf (Finite b) = (if b = 0 then NaN else if 0 < b then NegInf else PosInf)"
| "f_mul PosInf PosInf = PosInf"
| "f_mul PosInf NegInf = NegInf"
| "f_mul NegInf PosInf = NegInf"
| "f_mul NegInf NegInf = PosInf"

fun f_add :: "float64 \<Rightarrow> float64 \<Rightarrow> float64" where
  "f_add NaN y = NaN"
| "f_add x NaN = NaN"
| "f_add (Finite a) (Finite b) = result64 (a + b)"
| "f_add (Finite a) PosInf = PosInf"
| "f_add (Finite a) NegInf = NegInf"
| "f_add PosInf (Finite b) = PosInf"
| "f_add NegInf (Finite b) = NegInf"
| "f_add PosInf PosInf = PosInf"
| "f_add NegInf NegInf = NegInf"
| "f_add PosInf NegInf = NaN"
| "f_add NegInf PosInf = NaN"

fun f_gt :: "float64 \<Rightarrow> float64 \<Rightarrow> bool" where
  "f_gt NaN y = False"
| "f_gt x NaN = False"
| "f_gt (Finite a) (Finite b) = (b < a)"
| "f_gt (Finite a) PosInf = False"
| "f_gt (Finite a) NegInf = True"
| "f_gt PosInf PosInf = False"
| "f_gt PosInf y = True"
| "f_gt NegInf y = False"

text \<open>\<^verbatim>\<open>float64(d)\<close> for a duration \<open>d\<close>.\<close>

definition of_Duration :: "int \<Rightarrow> float64" where
  "of_Duration d = Finite (real_of_int d)"

text \<open>
  \<^verbatim>\<open>math.Pow(2, float64(attempt))\<close>: the power is exact while it is a
  \<^verbatim>\<open>float64\<close>, it is \<^verbatim>\<open>+Inf\<close> from the exponent 1024 and zero below the exponent
  -1074.
\<close>

definition pow2 :: "int \<Rightarrow> float64" where
  "pow2 attempt =
     (if 1023 < attempt then PosInf
      else if attempt < - 1074 then Finite 0
      else if 0 \<le> attempt then Finite (2 ^ nat attempt)
      else Finite (1 / 2 ^ nat (- attempt)))"

text \<open>Lines 77 to 82: the exponential backoff, capped: the value before the jitter.\<close>

definition backoff_base :: "int \<Rightarrow> int \<Rightarrow> int \<Rightarrow> float64" where
  "backoff_base minB maxB attempt =
     (let backoff = f_mul (of_Duration minB) (pow2 attempt)
      in if f_gt backoff (of_Duration maxB) then of_Duration maxB else backoff)"

text \<open>
  Lines 85 and 86: the jitter \<^verbatim>\<open>backoff * 0.25 * (rand.Float64()*2 - 1)\<close> for the
  draw \<open>r\<close>, added to the backoff; subtracting one is adding minus one.
\<close>

definition jittered :: "float64 \<Rightarrow> real \<Rightarrow> float64" where
  "jittered backoff r =
     (let jitter = f_mul (f_mul backoff (Finite 0.25))
                         (f_add (f_mul (Finite r) (Finite 2)) (Finite (- 1)))
      in f_add backoff jitter)"

text \<open>
  Line 88, \<^verbatim>\<open>time.Duration(backoff)\<close>: the conversion of a \<^verbatim>\<open>float64\<close> to
  \<^verbatim>\<open>int64\<close> discards the fraction (truncation toward zero). For NaN, an infinity
  or a value outside \<^verbatim>\<open>int64\<close> the language leaves the result to the implementation;
  the model takes the result of the amd64 conversion, the least \<^verbatim>\<open>int64\<close>.
\<close>

fun to_Duration :: "float64 \<Rightarrow> int" where
  "to_Duration (Finite x) =
     (if - (2 ^ 63) - 1 < x \<and> x < 2 ^ 63 then (if 0 \<le> x then \<lfloor>x\<rfloor> else \<lceil>x\<rceil>)
      else - (2 ^ 63))"
| "to_Duration x = - (2 ^ 63)"

definition calculateBackoff_draw :: "int \<Rightarrow> int \<Rightarrow> int \<Rightarrow> real \<Rightarrow> int" where
  "calculateBackoff_draw minB maxB attempt r =
     to_Duration (jittered (backoff_base minB maxB attempt) r)"

section \<open>The world around a round trip\<close>

text \<open>
  What a round trip does besides returning is recorded in a chronological trace: a
  request handed to the network transport (with the instant), a \<^verbatim>\<open>Body.Close()\<close>,
  the creation of a derived context and the call of its cancel function.
\<close>

datatype event =
    Sent Request int
  | Closed nat
  | Derived Context
  | Released Context

text \<open>The two cases of the \<^verbatim>\<open>select\<close> of the backoff wait.\<close>

datatype select_case = TimerFired | CtxDone

text \<open>
  The world: the clock, the stream of \<^verbatim>\<open>rand.Float64()\<close> with the number of draws
  taken, the choice \<^verbatim>\<open>select\<close> makes when both of its channels are ready at the
  same instant (Go chooses among ready cases at random), the latency with which the
  timer of a deadline marks its context as done (by the deadline), and the trace.
\<close>

record world =
  now :: int
  floats :: "nat \<Rightarrow> real"
  drawn :: nat
  pick :: "int \<Rightarrow> select_case"
  latency :: "int \<Rightarrow> nat"
  trace :: "event list"

text \<open>
  \<^verbatim>\<open>ctx.Err()\<close>: nil until the context is done. The loop reads it at line 41 and
  calls the inner transport at line 46 with nothing in between; the model has both at
  one instant of its clock and so does not show a context that ends between the two.
\<close>

definition ctx_Err :: "Context \<Rightarrow> world \<Rightarrow> error option" where
  "ctx_Err c w =
     (case done_at c of
        None \<Rightarrow> None
      | Some t \<Rightarrow> if t \<le> now w then Some (done_err c) else None)"

text \<open>\<^verbatim>\<open>rand.Float64()\<close>: the next draw of the stream.\<close>

definition Float64 :: "world \<Rightarrow> real \<times> world" where
  "Float64 w = (floats w (drawn w), w\<lparr>drawn := drawn w + 1\<rparr>)"

text \<open>\<^verbatim>\<open>resp.Body.Close()\<close>.\<close>

definition Body_Close :: "nat \<Rightarrow> world \<Rightarrow> world" where
  "Body_Close b w = w\<lparr>trace := trace w @ [Closed b]\<rparr>"

text \<open>
  The \<^verbatim>\<open>select\<close> of retry.go lines 58 to 63. The timer of \<^verbatim>\<open>time.After(backoff)\<close>
  is ready at \<open>now + backoff\<close> (at once when the backoff is not positive), the channel
  \<^verbatim>\<open>ctx.Done()\<close> from the instant the context is done (at once when it is done
  already). The case that is ready first is taken and the clock moves there; when both
  are ready at the same instant the world's \<open>pick\<close> decides.
\<close>

definition select_wait :: "Context \<Rightarrow> int \<Rightarrow> world \<Rightarrow> select_case \<times> world" where
  "select_wait c backoff w =
     (let timer = now w + max 0 backoff in
      case done_at c of
        None \<Rightarrow> (TimerFired, w\<lparr>now := timer\<rparr>)
      | Some t \<Rightarrow>
          (let done = max (now w) t in
           if done < timer then (CtxDone, w\<lparr>now := done\<rparr>)
           else if timer < done then (TimerFired, w\<lparr>now := timer\<rparr>)
           else (pick w timer, w\<lparr>now := timer\<rparr>)))"

section \<open>Transports\<close>

text \<open>
  The implementations of \<^verbatim>\<open>http.RoundTripper\<close> in the package:
  \<^item> \<open>Transport\<close>: the network transport beneath the chain (\<^verbatim>\<open>*http.Transport\<close> or a
    test double), given by its reply to a request in a world (it may read the clock and
    the trace, so a reply can depend on how many requests went before) and the time the
    exchange takes;
  \<^item> \<open>RoundTripFunc\<close>: a function used as a transport;
  \<^item> \<open>retryTransport\<close>: the struct of retry.go lines 25 to 31, its field \<^verbatim>\<open>base\<close> and
    its other fields as the record \<open>retryPolicy\<close>;
  \<^item> \<open>middlewareTransport\<close>: the struct with the single field \<^verbatim>\<open>base\<close>.
\<close>

record retryPolicy =
  maxRetries :: int
  minBackoff :: int
  maxBackoff :: int
  retryIf :: RetryConditionFunc

datatype RoundTripper =
    Transport "Request \<Rightarrow> world \<Rightarrow> result \<times> nat"
  | RoundTripFunc "Request \<Rightarrow> world \<Rightarrow> result \<times> world"
  | retryTransport (base: RoundTripper) (policy: retryPolicy)
  | middlewareTransport (base: RoundTripper)

type_synonym Middleware = "RoundTripper \<Rightarrow> RoundTripper"

text \<open>One exchange of the network transport: the request is sent, the clock advances.\<close>

definition exchange :: "(Request \<Rightarrow> world \<Rightarrow> result \<times> nat) \<Rightarrow> Request \<Rightarrow> world \<Rightarrow> result \<times> world" where
  "exchange f req w =
     (case f req w of
        (res, elapsed) \<Rightarrow>
          (res, w\<lparr>now := now w + int elapsed, trace := trace w @ [Sent req (now w)]\<rparr>))"

section \<open>The retry executor\<close>

text \<open>\<^verbatim>\<open>calculateBackoff\<close> as the method: it takes its draw from the world.\<close>

definition calculateBackoff :: "retryPolicy \<Rightarrow> int \<Rightarrow> world \<Rightarrow> int \<times> world" where
  "calculateBackoff rt attempt w =
     (case Float64 w of
        (r, w') \<Rightarrow> (calculateBackoff_draw (minBackoff rt) (maxBackoff rt) attempt r, w'))"

text \<open>
  The four \<^verbatim>\<open>return\<close> statements of \<^verbatim>\<open>retryTransport.RoundTrip\<close>: line 42 (the
  context check at the head of an iteration), line 51 (after an attempt), line 62
  (the context fired during the wait) and line 71 (after the loop).
\<close>

datatype exit_point = AtContextCheck | AfterAttempt | DuringWait | AfterLoop

text \<open>
  The body of the loop, retry.go lines 40 to 68, for the inner transport \<open>send\<close>: it
  either returns from the function or falls through to the next iteration with the
  \<^verbatim>\<open>resp\<close> and \<^verbatim>\<open>err\<close> it has assigned.
\<close>

datatype iteration = Return exit_point result world | Continue result world

definition iteration_body ::
  "(Request \<Rightarrow> world \<Rightarrow> result \<times> world) \<Rightarrow> retryPolicy \<Rightarrow> Request \<Rightarrow> int \<Rightarrow> world \<Rightarrow> iteration" where
  "iteration_body send rt req attempt w =
     (case ctx_Err (ctx req) w of
        Some e \<Rightarrow> Return AtContextCheck (None, Some e) w
      | None \<Rightarrow>
          (case send req w of
             ((resp, err), w1) \<Rightarrow>
               (let shouldRetry = retryIf rt resp err in
                if \<not> shouldRetry \<or> attempt = maxRetries rt then Return AfterAttempt (resp, err) w1
                else
                  (case calculateBackoff rt attempt w1 of
                     (backoff, w2) \<Rightarrow>
                       (case select_wait (ctx req) backoff w2 of
                          (CtxDone, w3) \<Rightarrow> Return DuringWait (None, ctx_Err (ctx req) w3) w3
                        | (TimerFired, w3) \<Rightarrow>
                            Continue (resp, err)
                              (if resp \<noteq> None \<and> Body (the resp) \<noteq> None
                               then Body_Close (the (Body (the resp))) w3 else w3))))))"

text \<open>
  The loop \<^verbatim>\<open>for attempt := 0; attempt <= rt.maxRetries; attempt++\<close>, from any
  attempt index, with the current values of \<^verbatim>\<open>resp\<close> and \<^verbatim>\<open>err\<close>.
\<close>

function retry_loop ::
  "(Request \<Rightarrow> world \<Rightarrow> result \<times> world) \<Rightarrow> retryPolicy \<Rightarrow> Request \<Rightarrow> int \<Rightarrow> result \<Rightarrow> world
     \<Rightarrow> exit_point \<times> result \<times> world" where
  "retry_loop send rt req attempt res w =
     (if attempt \<le> maxRetries rt then
        (case iteration_body send rt req attempt w of
           Return ex r w' \<Rightarrow> (ex, r, w')
         | Continue r w' \<Rightarrow> retry_loop send rt req (attempt + 1) r w')
      else (AfterLoop, res, w))"
  by pat_completeness auto
termination
  by (relation "measure (\<lambda>(send, rt, req, attempt, res, w). nat (maxRetries rt + 1 - attempt))") auto

text \<open>\<^verbatim>\<open>retryTransport.RoundTrip\<close>, retry.go lines 33 to 72.\<close>

definition retry_RoundTrip ::
  "(Request \<Rightarrow> world \<Rightarrow> result \<times> world) \<Rightarrow> retryPolicy \<Rightarrow> Request \<Rightarrow> world \<Rightarrow> result \<times> world" where
  "retry_RoundTrip send rt req w = snd (retry_loop send rt req 0 (None, None) w)"

text \<open>
  \<^verbatim>\<open>RoundTrip\<close> of each implementation: \<^verbatim>\<open>RoundTripFunc.RoundTrip\<close> calls the
  function, \<^verbatim>\<open>middlewareTransport.RoundTrip\<close> returns \<^verbatim>\<open>mt.base.RoundTrip(req)\<close>.
\<close>

primrec RoundTrip :: "RoundTripper \<Rightarrow> Request \<Rightarrow> world \<Rightarrow> result \<times> world" where
  "RoundTrip (Transport f) = exchange f"
| "RoundTrip (RoundTripFunc f) = f"
| "RoundTrip (retryTransport b rt) = retry_RoundTrip (RoundTrip b) rt"
| "RoundTrip (middlewareTransport b) = RoundTrip b"

text \<open>The number of requests handed to the network transport so far.\<close>

fun is_Sent :: "event \<Rightarrow> bool" where
  "is_Sent (Sent r t) = True"
| "is_Sent e = False"

definition invocations :: "world \<Rightarrow> nat" where
  "invocations w = length (filter is_Sent (trace w))"

section \<open>The middleware chain\<close>

text \<open>
  \<^verbatim>\<open>Options\<close>, with the fields the chain is built from, the client's timeout and the
  default headers. The field \<^verbatim>\<open>Transport\<close> is left out: only \<^verbatim>\<open>New\<close> reads it,
  to choose the transport it passes to \<^verbatim>\<open>buildMiddlewareChain\<close>. A nil
  \<^verbatim>\<open>RetryIf\<close> is \<open>None\<close>.
\<close>

record Options =
  Timeout :: int
  MaxRetries :: int
  RetryMinBackoff :: int
  RetryMaxBackoff :: int
  RetryIf :: "RetryConditionFunc option"
  Headers :: "(string \<times> string list) list"
  Middlewares :: "Middleware list"

text \<open>
  The loop \<^verbatim>\<open>for i := len(opts.Middlewares) - 1; i >= 0; i--\<close> of lines 48 to 50,
  with \<open>k = i + 1\<close> middlewares still to apply: it applies \<open>ms ! i\<close> and goes on with
  \<open>i - 1\<close>. The index is below the length of the list throughout.
\<close>

fun wrap :: "Middleware list \<Rightarrow> nat \<Rightarrow> RoundTripper \<Rightarrow> RoundTripper" where
  "wrap ms 0 rt = rt"
| "wrap ms (Suc i) rt = wrap ms i ((ms ! i) rt)"

text \<open>\<^verbatim>\<open>buildMiddlewareChain\<close>, lines 28 to 53.\<close>

definition buildMiddlewareChain :: "RoundTripper \<Rightarrow> Options \<Rightarrow> RoundTripper" where
  "buildMiddlewareChain base_rt opts =
     (let rt = base_rt;
          rt = (if MaxRetries opts > 0 then
                  (let retryIf = (case RetryIf opts of None \<Rightarrow> DefaultRetryIf | Some p \<Rightarrow> p)
                   in retryTransport rt
                        \<lparr>maxRetries = MaxRetries opts,
                         minBackoff = RetryMinBackoff opts,
                         maxBackoff = RetryMaxBackoff opts,
                         retryIf = retryIf\<rparr>)
                else rt);
          rt = wrap (Middlewares opts) (length (Middlewares opts)) rt
      in middlewareTransport rt)"

section \<open>The timeout middleware\<close>

text \<open>
  \<^verbatim>\<open>context.WithTimeout(parent, timeout)\<close> of Go's standard library, after its
  documentation and source: the deadline is \<open>now + timeout\<close>, and the timer of the
  deadline marks the derived context as done at the deadline or, by the world's latency,
  later. When the parent is done already or is done before that, the derived context is
  done with the parent and reports the parent's error; otherwise it is done when its
  timer has run and reports \<^verbatim>\<open>DeadlineExceeded\<close>. The creation is recorded in the
  trace: the derived context holds a timer until its cancel function is called.
\<close>

definition WithTimeout :: "Context \<Rightarrow> int \<Rightarrow> world \<Rightarrow> Context \<times> world" where
  "WithTimeout parent timeout w =
     (let d = now w + timeout;
          e = d + int (latency w d);
          own = \<lparr>done_at = Some e, done_err = DeadlineExceeded\<rparr>;
          c = (case done_at parent of
                 None \<Rightarrow> own
               | Some p \<Rightarrow> if p \<le> now w \<or> p < e then parent else own)
      in (c, w\<lparr>trace := trace w @ [Derived c]\<rparr>))"

text \<open>
  The cancel function \<^verbatim>\<open>WithTimeout\<close> returns, called for the context \<open>c\<close>. The
  call stops the timer and ends the derived context: from the call on it is done,
  whatever its \<open>done_at\<close>. The model records the call and does not rewrite the context,
  so \<open>done_at\<close> describes a derived context up to the call of its cancel function only;
  \<^verbatim>\<open>TimeoutMiddleware\<close> calls it last, when no code beneath it runs any more.
\<close>

definition cancel :: "Context \<Rightarrow> world \<Rightarrow> world" where
  "cancel c w = w\<lparr>trace := trace w @ [Released c]\<rparr>"

text \<open>
  \<^verbatim>\<open>TimeoutMiddleware\<close>, lines 103 to 113. \<^verbatim>\<open>req.WithContext(ctx)\<close> returns a
  shallow copy of the request with the context replaced; the deferred \<^verbatim>\<open>cancel()\<close>
  runs when the function returns, after \<^verbatim>\<open>next.RoundTrip\<close>.
\<close>

definition TimeoutMiddleware :: "int \<Rightarrow> Middleware" where
  "TimeoutMiddleware timeout = (\<lambda>next. RoundTripFunc (\<lambda>req w.
     (case WithTimeout (ctx req) timeout w of
        (c, w1) \<Rightarrow>
          (case RoundTrip next (req\<lparr>ctx := c\<rparr>) w1 of
             (res, w2) \<Rightarrow> (res, cancel c w2)))))"

text \<open>A context is live at an instant when it is not done then.\<close>

definition live_at :: "Context \<Rightarrow> int \<Rightarrow> bool" where
  "live_at c t = (case done_at c of None \<Rightarrow> True | Some d \<Rightarrow> t < d)"

section \<open>Scenarios\<close>

text \<open>
  Concrete inputs for the instances below: \<^verbatim>\<open>context.Background()\<close>, a context
  cancelled at an instant, a context whose deadline takes effect at an instant, a GET
  request, a world starting at instant 0 in which every draw of \<^verbatim>\<open>rand.Float64()\<close>
  is one half (no jitter) and timers have no latency, a transport answering 503 with a
  fresh body after 10ns, a transport failing after 10ns, a transport answering 503 with
  a fresh body after 10ns and, when the request's context has ended by then, the
  context's error with it, and a retry policy with the default predicate.
\<close>

definition background :: Context where
  "background = \<lparr>done_at = None, done_err = Canceled\<rparr>"

definition cancelled_at :: "int \<Rightarrow> Context" where
  "cancelled_at t = \<lparr>done_at = Some t, done_err = Canceled\<rparr>"

definition deadline_at :: "int \<Rightarrow> Context" where
  "deadline_at t = \<lparr>done_at = Some t, done_err = DeadlineExceeded\<rparr>"

definition get_request :: "Context \<Rightarrow> Request" where
  "get_request c = \<lparr>Method = ''GET'', URL = ''http://example.test/'', Header = [], ctx = c\<rparr>"

definition start :: world where
  "start = \<lparr>now = 0, floats = (\<lambda>n. 1 / 2), drawn = 0, pick = (\<lambda>t. TimerFired),
            latency = (\<lambda>d. 0), trace = []\<rparr>"

definition unavailable :: "Request \<Rightarrow> world \<Rightarrow> result \<times> nat" where
  "unavailable req w = ((Some \<lparr>StatusCode = 503, Body = Some (length (trace w))\<rparr>, None), 10)"

definition refusing :: "Request \<Rightarrow> world \<Rightarrow> result \<times> nat" where
  "refusing req w = ((None, Some (TransportError ''connection refused'')), 10)"

definition interrupted :: "Request \<Rightarrow> world \<Rightarrow> result \<times> nat" where
  "interrupted req w =
     ((Some \<lparr>StatusCode = 503, Body = Some (length (trace w))\<rparr>,
       ctx_Err (ctx req) (w\<lparr>now := now w + 10\<rparr>)), 10)"

definition policy :: "int \<Rightarrow> retryPolicy" where
  "policy n = \<lparr>maxRetries = n, minBackoff = 100, maxBackoff = 1000, retryIf = DefaultRetryIf\<rparr>"

text \<open>
  A middleware in the manner of the README's custom middleware: it appends a header
  line carrying its name to the request and delegates.
\<close>

definition marking :: "string \<Rightarrow> Middleware" where
  "marking name = (\<lambda>next. RoundTripFunc (\<lambda>req w.
     RoundTrip next (req\<lparr>Header := Header req @ [(''X-Marker'', name)]\<rparr>) w))"

section \<open>Properties of the default predicate\<close>

text \<open>
  C5. \<^verbatim>\<open>DefaultRetryIf\<close> is true for every pair with a non-nil error (whatever the
  response, nil included); with a nil error and a response it is true exactly when the
  status is at least 500 or is 429; it is false otherwise: for the statuses 200, 404 and
  400, and when response and error are both nil.
\<close>

theorem DefaultRetryIf_spec:
  "DefaultRetryIf resp (Some e) = True
   \<and> DefaultRetryIf (Some r) None = (StatusCode r \<ge> 500 \<or> StatusCode r = 429)
   \<and> DefaultRetryIf None None = False
   \<and> DefaultRetryIf (Some \<lparr>StatusCode = 200, Body = b\<rparr>) None = False
   \<and> DefaultRetryIf (Some \<lparr>StatusCode = 404, Body = b\<rparr>) None = False
   \<and> DefaultRetryIf (Some \<lparr>StatusCode = 400, Body = b\<rparr>) None = False
   \<and> DefaultRetryIf (Some \<lparr>StatusCode = 500, Body = b\<rparr>) None = True
   \<and> DefaultRetryIf (Some \<lparr>StatusCode = 429, Body = b\<rparr>) None = True"
  by (simp add: DefaultRetryIf_def)

section \<open>Properties of the backoff calculator\<close>

lemma result64_Finite: "- (2 ^ 1024) < x \<Longrightarrow> x < 2 ^ 1024 \<Longrightarrow> result64 x = Finite x"
  by (simp add: result64_def)

lemma small_in_range:
  assumes "\<bar>x\<bar> \<le> 2 ^ 55"
  shows "- (2 ^ 1024) < (x::real)" "x < 2 ^ 1024"
proof -
  have "(2::real) ^ 55 < 2 ^ 1024" by (rule power_strict_increasing) simp_all
  with assms show "- (2 ^ 1024) < x" "x < 2 ^ 1024" by linarith+
qed

lemma result64_small: "\<bar>x\<bar> \<le> 2 ^ 55 \<Longrightarrow> result64 x = Finite x"
  using small_in_range[of x] by (simp add: result64_Finite)

lemma backoff_base_exact:
  assumes mn: "0 \<le> mn" "mn \<le> 2 ^ 53" and mx: "\<bar>mx\<bar> \<le> 2 ^ 53"
    and k: "0 \<le> k" and nan: "0 < mn \<or> k \<le> 1023"
  shows "backoff_base mn mx k = Finite (real_of_int (min (mn * 2 ^ nat k) mx))"
proof -
  have mxr: "real_of_int mx < 2 ^ 1024"
  proof -
    have "real_of_int mx \<le> real_of_int (2 ^ 53)" using mx by (intro of_int_le_iff[THEN iffD2]) linarith
    also have "\<dots> = 2 ^ 53" by simp
    also have "\<dots> < (2::real) ^ 1024" by (rule power_strict_increasing) simp_all
    finally show ?thesis .
  qed
  show ?thesis
  proof (cases "1023 < k")
    case True
    then have pos: "0 < mn" using nan by simp
    have "(2::int) ^ 53 \<le> 2 ^ nat k" using True by (intro power_increasing) simp_all
    also have "\<dots> \<le> mn * 2 ^ nat k" using pos by simp
    finally have "mx \<le> mn * 2 ^ nat k" using mx by linarith
    then have "min (mn * 2 ^ nat k) mx = mx" by simp
    then show ?thesis using True pos
      by (simp add: backoff_base_def pow2_def of_Duration_def)
  next
    case False
    let ?p = "real_of_int mn * 2 ^ nat k"
    have p0: "0 \<le> ?p" using mn by simp
    have pw: "pow2 k = Finite (2 ^ nat k)" using False k by (simp add: pow2_def)
    have cast: "real_of_int (min (mn * 2 ^ nat k) mx) = min ?p (real_of_int mx)"
      by (simp add: of_int_min)
    show ?thesis
    proof (cases "2 ^ 1024 \<le> ?p")
      case True
      then have "f_mul (of_Duration mn) (pow2 k) = PosInf"
        by (simp add: pw of_Duration_def result64_def)
      moreover have "min ?p (real_of_int mx) = real_of_int mx" using True mxr by simp
      ultimately show ?thesis
        unfolding cast by (simp add: backoff_base_def of_Duration_def)
    next
      case False
      then have "f_mul (of_Duration mn) (pow2 k) = Finite ?p"
        using p0 by (simp add: pw of_Duration_def result64_def)
      then show ?thesis
        unfolding cast by (simp add: backoff_base_def of_Duration_def min_def)
    qed
  qed
qed

lemma capped_mono:
  assumes "0 \<le> mn" "a \<le> a'"
  shows "min (mn * 2 ^ nat a) mx \<le> min (mn * 2 ^ nat a') (mx::int)"
proof -
  have "(2::int) ^ nat a \<le> 2 ^ nat a'" using assms(2) by (intro power_increasing) simp_all
  then have "mn * 2 ^ nat a \<le> mn * 2 ^ nat a'" using assms(1) by (rule mult_left_mono)
  then show ?thesis by (simp add: min_le_iff_disj)
qed


lemma jittered_half: "\<bar>b\<bar> \<le> 2 ^ 53 \<Longrightarrow> jittered (Finite b) (1 / 2) = Finite b"
proof -
  assume b: "\<bar>b\<bar> \<le> 2 ^ 53"
  have p55: "(2::real) ^ 53 \<le> 2 ^ 55" by (rule power_increasing) simp_all
  have s3: "result64 (b / 4) = Finite (b / 4)"
    using b p55 by (intro result64_small) (simp add: abs_le_iff)
  have s5: "result64 b = Finite b" using b p55 by (intro result64_small) simp
  have z: "result64 0 = Finite 0" "result64 1 = Finite 1" by (simp_all add: result64_def)
  show ?thesis by (simp add: jittered_def s3 s5 z)
qed




lemmas backoff_defs =
  calculateBackoff_draw_def backoff_base_def pow2_def of_Duration_def jittered_def result64_def

text \<open>
  C6, as amended. For a minimum backoff between 0 and \<open>2 ^ 53\<close> nanoseconds, a maximum
  backoff of at most \<open>2 ^ 53\<close> nanoseconds in absolute value and attempt indices from 0
  (up to 1023 when the minimum is zero), the value before the jitter is
  \<open>minBackoff * 2 ^ attempt\<close> capped at the maximum; it does not decrease when the
  attempt index grows, never exceeds the maximum, and stays at the maximum once it has
  reached it. With the draw one half the jitter is zero and \<^verbatim>\<open>calculateBackoff\<close>
  returns that value. For 100ms and 200ms the value at attempt index 5 is 200ms.
\<close>

theorem backoff_base_capped_monotone:
  assumes "0 \<le> minB" and "minB \<le> 2 ^ 53" and "\<bar>maxB\<bar> \<le> 2 ^ 53"
    and "0 \<le> attempt" and "attempt \<le> attempt'" and "0 < minB \<or> attempt' \<le> 1023"
  shows "backoff_base minB maxB attempt = Finite (real_of_int (min (minB * 2 ^ nat attempt) maxB))
     \<and> backoff_base minB maxB attempt' = Finite (real_of_int (min (minB * 2 ^ nat attempt') maxB))
     \<and> min (minB * 2 ^ nat attempt) maxB \<le> min (minB * 2 ^ nat attempt') maxB
     \<and> \<not> f_gt (backoff_base minB maxB attempt) (backoff_base minB maxB attempt')
     \<and> \<not> f_gt (backoff_base minB maxB attempt') (of_Duration maxB)
     \<and> (backoff_base minB maxB attempt = of_Duration maxB
          \<longrightarrow> backoff_base minB maxB attempt' = of_Duration maxB)
     \<and> jittered (backoff_base minB maxB attempt) (1 / 2) = backoff_base minB maxB attempt
     \<and> calculateBackoff_draw minB maxB attempt (1 / 2) = min (minB * 2 ^ nat attempt) maxB
     \<and> backoff_base 100000000 200000000 5 = Finite 200000000"
proof -
  let ?b = "min (minB * 2 ^ nat attempt) maxB"
  let ?b' = "min (minB * 2 ^ nat attempt') maxB"
  have nan: "0 < minB \<or> attempt \<le> 1023" using assms(5,6) by linarith
  have a': "0 \<le> attempt'" using assms(4,5) by linarith
  have e: "backoff_base minB maxB attempt = Finite (real_of_int ?b)"
    using assms(1,2,3,4) nan by (rule backoff_base_exact)
  have e': "backoff_base minB maxB attempt' = Finite (real_of_int ?b')"
    using assms(1,2,3) a' assms(6) by (rule backoff_base_exact)
  have mono: "?b \<le> ?b'" using assms(1,5) by (rule capped_mono)
  have cap: "?b' \<le> maxB" by simp
  have sat: "backoff_base minB maxB attempt = of_Duration maxB
          \<longrightarrow> backoff_base minB maxB attempt' = of_Duration maxB"
    using mono cap unfolding e e' of_Duration_def by simp
  have bnd: "\<bar>real_of_int ?b\<bar> \<le> 2 ^ 53"
  proof -
    have "0 \<le> minB * 2 ^ nat attempt" using assms(1) by simp
    then have "- (2 ^ 53) \<le> ?b" "?b \<le> 2 ^ 53" using assms(3) by simp_all
    then have "\<bar>?b\<bar> \<le> 2 ^ 53" by linarith
    then have "real_of_int \<bar>?b\<bar> \<le> real_of_int (2 ^ 53)" by (simp only: of_int_le_iff)
    then show ?thesis by simp
  qed
  have half: "jittered (backoff_base minB maxB attempt) (1 / 2) = backoff_base minB maxB attempt"
    unfolding e using bnd by (rule jittered_half)
  have "(2::real) ^ 53 < 2 ^ 63" by (rule power_strict_increasing) simp_all
  then have "- (2 ^ 63) - 1 < real_of_int ?b" "real_of_int ?b < 2 ^ 63" using bnd by linarith+
  then have dur: "to_Duration (Finite (real_of_int ?b)) = ?b" by simp
  have draw: "calculateBackoff_draw minB maxB attempt (1 / 2) = ?b"
    unfolding calculateBackoff_draw_def half unfolding e by (rule dur)
  have ex: "backoff_base 100000000 200000000 5 = Finite 200000000"
    by (simp add: backoff_defs)
  show ?thesis
    using mono cap sat half draw ex unfolding e e' of_Duration_def by simp
qed

text \<open>The instance 100ms, 200ms at the attempt indices 0 and 5.\<close>

theorem backoff_base_capped_monotone_witness:
  "(0::int) \<le> 100000000 \<and> (100000000::int) \<le> 2 ^ 53 \<and> \<bar>200000000::int\<bar> \<le> 2 ^ 53
   \<and> (0::int) \<le> 5
   \<and> backoff_base 100000000 200000000 0 = Finite 100000000
   \<and> backoff_base 100000000 200000000 5 = Finite 200000000
   \<and> calculateBackoff_draw 100000000 200000000 0 (1 / 2) = 100000000"
  using backoff_base_capped_monotone [of 100000000 200000000 0 5]
  by simp

text \<open>
  The claim as stated holds for every attempt index. With a minimum backoff of zero
  \<^verbatim>\<open>math.Pow\<close> overflows at the attempt index 1024 and zero times infinity is NaN,
  which the comparison of line 80 does not cap: after the value 0 at index 1023 the
  value before the jitter is NaN at index 1024, not the capped product 0, and the
  duration returned is that of the conversion of NaN.
\<close>

theorem backoff_base_overflow_counterexample:
  "backoff_base 0 1000 1023 = Finite 0
   \<and> backoff_base 0 1000 1024 = NaN
   \<and> backoff_base 0 1000 1024 \<noteq> Finite (real_of_int (min (0 * 2 ^ nat 1024) 1000))
   \<and> jittered (backoff_base 0 1000 1024) (1 / 2) = NaN
   \<and> calculateBackoff_draw 0 1000 1024 (1 / 2) = - (2 ^ 63)"
  by (simp add: backoff_defs)




section \<open>Properties of the retry executor\<close>

declare retry_loop.simps [simp del]

lemmas scenario_defs =
  background_def cancelled_at_def deadline_at_def get_request_def start_def
  unavailable_def refusing_def interrupted_def policy_def

text \<open>The backoffs of the scenarios' policy, at the draw one half.\<close>

lemma policy_backoff_0: "calculateBackoff_draw 100 1000 0 (1 / 2) = 100"
  by (simp add: calculateBackoff_draw_def backoff_base_def pow2_def of_Duration_def
        jittered_def result64_small)

lemma policy_backoff_1: "calculateBackoff_draw 100 1000 1 (1 / 2) = 200"
  by (simp add: calculateBackoff_draw_def backoff_base_def pow2_def of_Duration_def
        jittered_def result64_small)

lemmas step_defs =
  retry_RoundTrip_def iteration_body_def ctx_Err_def exchange_def DefaultRetryIf_def
  calculateBackoff_def Float64_def select_wait_def Body_Close_def
  policy_backoff_0 policy_backoff_1


lemma select_wait_CtxDone:
  assumes "select_wait c d w = (CtxDone, w')"
  shows "ctx_Err c w' = Some (done_err c)"
  using assms by (auto simp: select_wait_def ctx_Err_def Let_def split: option.splits if_splits)


lemma select_wait_timer:
  assumes "\<forall>t. done_at c = Some t \<longrightarrow> now w + max 0 d < t"
  shows "select_wait c d w = (TimerFired, w\<lparr>now := now w + max 0 d\<rparr>)"
  using assms by (auto simp: select_wait_def Let_def split: option.splits)

lemma trace_select_wait: "select_wait c d w = (s, w') \<Longrightarrow> trace w' = trace w"
  by (auto simp: select_wait_def Let_def split: option.splits if_splits)

lemma trace_calculateBackoff: "calculateBackoff rt a w = (d, w') \<Longrightarrow> trace w' = trace w"
  by (auto simp: calculateBackoff_def Float64_def)

lemma exchange_effect:
  "exchange f req w = (r, w1) \<Longrightarrow> trace w1 = trace w @ [Sent req (now w)] \<and> now w \<le> now w1"
  by (auto simp: exchange_def split: prod.splits)

lemma invocations_exchange:
  "exchange f req w = (r, w1) \<Longrightarrow> invocations w1 = Suc (invocations w)"
  by (auto simp: exchange_def invocations_def split: prod.splits)

lemma invocations_Body_Close: "invocations (Body_Close b w) = invocations w"
  by (simp add: Body_Close_def invocations_def)





text \<open>
  How the loop can end: at one of its two cancellation returns, with a nil response
  and the error of the context, which is done in the final world; after an attempt,
  with the pair and the world of an invocation of the inner transport; or, when the
  attempt index is above the maximum, with what it was given.
\<close>

lemma iteration_body_Return:
  assumes "iteration_body send rt req attempt w = Return ex (resp, err) w'"
  shows "(ex = AtContextCheck \<or> ex = DuringWait) \<and> resp = None
           \<and> err = Some (done_err (ctx req)) \<and> ctx_Err (ctx req) w' = err
         \<or> ex = AfterAttempt \<and> send req w = ((resp, err), w')
              \<and> (\<not> retryIf rt resp err \<or> attempt = maxRetries rt)"
proof (cases "ctx_Err (ctx req) w")
  case (Some e)
  then have "e = done_err (ctx req)"
    by (auto simp: ctx_Err_def split: option.splits if_splits)
  with Some assms show ?thesis by (auto simp: iteration_body_def)
next
  case None
  obtain resp0 err0 w1 where ex: "send req w = ((resp0, err0), w1)"
    by (metis surj_pair)
  obtain d w2 where bo: "calculateBackoff rt attempt w1 = (d, w2)"
    by (metis surj_pair)
  obtain s w3 where sel: "select_wait (ctx req) d w2 = (s, w3)"
    by (metis surj_pair)
  show ?thesis
  proof (cases s)
    case TimerFired
    with assms None ex bo sel show ?thesis
      by (auto simp: iteration_body_def split: if_splits)
  next
    case CtxDone
    with sel have "ctx_Err (ctx req) w3 = Some (done_err (ctx req))"
      by (simp add: select_wait_CtxDone)
    with assms None ex bo sel CtxDone show ?thesis
      by (auto simp: iteration_body_def split: if_splits)
  qed
qed

lemma iteration_body_Continue:
  assumes "iteration_body send rt req attempt w = Continue r w'"
  shows "attempt \<noteq> maxRetries rt"
  using assms
  by (auto simp: iteration_body_def Let_def
        split: option.splits prod.splits if_splits select_case.splits)

lemma iteration_body_Continue_invocations:
  assumes "iteration_body (exchange f) rt req attempt w = Continue r w'"
  shows "invocations w' = Suc (invocations w)"
proof -
  obtain resp0 err0 w1 where ex: "exchange f req w = ((resp0, err0), w1)"
    by (metis surj_pair)
  obtain d w2 where bo: "calculateBackoff rt attempt w1 = (d, w2)"
    by (metis surj_pair)
  obtain s w3 where sel: "select_wait (ctx req) d w2 = (s, w3)"
    by (metis surj_pair)
  have "invocations w3 = Suc (invocations w)"
    using invocations_exchange[OF ex] trace_select_wait[OF sel] trace_calculateBackoff[OF bo]
    by (simp add: invocations_def)
  with assms ex bo sel show ?thesis
    by (cases s)
       (auto simp: iteration_body_def invocations_Body_Close split: option.splits if_splits)
qed

lemma retry_loop_outcome:
  "retry_loop send rt req attempt res w = (ex, (resp, err), w') \<Longrightarrow>
     (ex = AtContextCheck \<or> ex = DuringWait) \<and> resp = None
        \<and> err = Some (done_err (ctx req)) \<and> ctx_Err (ctx req) w' = err
     \<or> ex = AfterAttempt \<and> (\<exists>v. send req v = ((resp, err), w'))
     \<or> ex = AfterLoop \<and> maxRetries rt < attempt \<and> (resp, err) = res \<and> w' = w"
proof (induction send rt req attempt res w rule: retry_loop.induct)
  case (1 send rt req attempt res w)
  show ?case
  proof (cases "attempt \<le> maxRetries rt")
    case False
    with "1.prems" show ?thesis by (simp add: retry_loop.simps)
  next
    case True
    show ?thesis
    proof (cases "iteration_body send rt req attempt w")
      case (Continue r w1)
      with True "1.prems" have run: "retry_loop send rt req (attempt + 1) r w1 = (ex, (resp, err), w')"
        by (simp add: retry_loop.simps)
      have "attempt + 1 \<le> maxRetries rt"
        using True iteration_body_Continue[OF Continue] by simp
      with "1.IH"[OF True Continue run] show ?thesis by auto
    next
      case (Return ex0 r0 w0)
      with True "1.prems" have "iteration_body send rt req attempt w = Return ex (resp, err) w'"
        by (simp add: retry_loop.simps)
      from iteration_body_Return[OF this] show ?thesis by blast
    qed
  qed
qed

text \<open>
  With a predicate that is always true and a context that is live when the loop
  returns, the loop returns from the attempt with the index \<open>maxRetries\<close>.
\<close>

lemma retry_loop_all_attempts:
  "retry_loop (exchange f) rt req attempt res w = (ex, r, w') \<Longrightarrow>
     ctx_Err (ctx req) w' = None \<Longrightarrow> attempt \<le> maxRetries rt \<Longrightarrow>
     \<forall>resp err. retryIf rt resp err \<Longrightarrow>
     \<exists>w_last. (r, w') = exchange f req w_last
        \<and> invocations w_last = invocations w + nat (maxRetries rt - attempt)"
proof (induction "exchange f" rt req attempt res w rule: retry_loop.induct)
  case (1 rt req attempt res w)
  note run0 = "1.prems"(1) and live = "1.prems"(2) and le = "1.prems"(3)
    and always = "1.prems"(4)
  show ?case
  proof (cases "iteration_body (exchange f) rt req attempt w")
    case (Continue r1 w1)
    with le run0 have run: "retry_loop (exchange f) rt req (attempt + 1) r1 w1 = (ex, r, w')"
      by (simp add: retry_loop.simps)
    have lt: "attempt + 1 \<le> maxRetries rt"
      using le iteration_body_Continue[OF Continue] by simp
    from "1.hyps"[OF le Continue run live lt always] obtain w_last where
      "(r, w') = exchange f req w_last"
      "invocations w_last = invocations w1 + nat (maxRetries rt - (attempt + 1))" by blast
    moreover have "invocations w1 = Suc (invocations w)"
      using Continue by (rule iteration_body_Continue_invocations)
    ultimately show ?thesis using lt by (intro exI[of _ w_last]) simp
  next
    case (Return ex0 r0 w0)
    with le run0 have it:
      "iteration_body (exchange f) rt req attempt w = Return ex (fst r, snd r) w'"
      by (simp add: retry_loop.simps)
    from iteration_body_Return[OF it] live
    have ret: "exchange f req w = ((fst r, snd r), w')"
      and last: "\<not> retryIf rt (fst r) (snd r) \<or> attempt = maxRetries rt"
      by auto
    from last always have "attempt = maxRetries rt" by blast
    moreover from ret have "(r, w') = exchange f req w" by simp
    ultimately show ?thesis by (intro exI[of _ w]) simp
  qed
qed

text \<open>
  C2. For a maximum of \<open>N \<ge> 0\<close> retries, a predicate that is always true, a transport
  that returns an error on every invocation and a context that is still live when the
  call returns (it may have a deadline, which has not taken effect by then), the
  executor returns what the transport returned to its last invocation, an error, and
  that invocation is preceded by exactly \<open>N\<close> others: the transport is invoked exactly
  \<open>N + 1\<close> times. A wait whose timer fires before the context is done is not cut short:
  it ends at its timer.
\<close>

theorem always_failing_transport_invoked_N_plus_1_times:
  assumes n: "0 \<le> maxRetries rt"
    and always: "\<And>resp err. retryIf rt resp err"
    and fails: "\<And>r v. snd (fst (f r v)) \<noteq> None"
    and live: "ctx_Err (ctx req) (snd (RoundTrip (retryTransport (Transport f) rt) req w)) = None"
  shows "\<exists>w_last.
        RoundTrip (retryTransport (Transport f) rt) req w
          = (fst (f req w_last), snd (exchange f req w_last))
      \<and> snd (fst (f req w_last)) \<noteq> None
      \<and> invocations w_last = invocations w + nat (maxRetries rt)
      \<and> invocations (snd (RoundTrip (retryTransport (Transport f) rt) req w))
          = invocations w + nat (maxRetries rt) + 1
      \<and> (\<forall>v d. (\<forall>t. done_at (ctx req) = Some t \<longrightarrow> now v + max 0 d < t)
            \<longrightarrow> select_wait (ctx req) d v = (TimerFired, v\<lparr>now := now v + max 0 d\<rparr>))"
proof -
  have timer: "\<forall>v d. (\<forall>t. done_at (ctx req) = Some t \<longrightarrow> now v + max 0 d < t)
            \<longrightarrow> select_wait (ctx req) d v = (TimerFired, v\<lparr>now := now v + max 0 d\<rparr>)"
    using select_wait_timer by blast
  obtain ex r w' where run: "retry_loop (exchange f) rt req 0 (None, None) w = (ex, r, w')"
    by (metis prod_cases3)
  then have rt: "RoundTrip (retryTransport (Transport f) rt) req w = (r, w')"
    by (simp add: retry_RoundTrip_def)
  have live': "ctx_Err (ctx req) w' = None" using live rt by simp
  have "\<forall>resp err. retryIf rt resp err" using always by blast
  from retry_loop_all_attempts[OF run live' n this] obtain w_last where
    l: "(r, w') = exchange f req w_last"
    and i: "invocations w_last = invocations w + nat (maxRetries rt)" by auto
  have e: "exchange f req w_last = (fst (f req w_last), snd (exchange f req w_last))"
    by (simp add: exchange_def split: prod.splits)
  have "invocations (snd (exchange f req w_last)) = Suc (invocations w_last)"
    using invocations_exchange[of f req w_last] by (metis prod.collapse)
  then show ?thesis using rt l i e fails timer by (intro exI[of _ w_last]) auto
qed

text \<open>
  The instance: two retries, a transport refusing every connection after 10ns, backoffs
  of 100ns and 200ns, and a context whose deadline takes effect after 10 seconds: the
  call returns at instant 330 with the transport's error after three invocations.
\<close>

theorem always_failing_transport_invoked_N_plus_1_times_witness:
  "(0::int) \<le> maxRetries ((policy 2)\<lparr>retryIf := (\<lambda>resp err. True)\<rparr>)
   \<and> RoundTrip (retryTransport (Transport refusing) ((policy 2)\<lparr>retryIf := (\<lambda>resp err. True)\<rparr>))
        (get_request (deadline_at 10000000000)) start
       = ((None, Some (TransportError ''connection refused'')),
          start\<lparr>now := 330, drawn := 2,
            trace := [Sent (get_request (deadline_at 10000000000)) 0,
                      Sent (get_request (deadline_at 10000000000)) 110,
                      Sent (get_request (deadline_at 10000000000)) 320]\<rparr>)
   \<and> ctx_Err (ctx (get_request (deadline_at 10000000000)))
        (start\<lparr>now := 330, drawn := 2,
            trace := [Sent (get_request (deadline_at 10000000000)) 0,
                      Sent (get_request (deadline_at 10000000000)) 110,
                      Sent (get_request (deadline_at 10000000000)) 320]\<rparr>) = None
   \<and> invocations (snd (RoundTrip
        (retryTransport (Transport refusing) ((policy 2)\<lparr>retryIf := (\<lambda>resp err. True)\<rparr>))
        (get_request (deadline_at 10000000000)) start)) = 3"
proof -
  let ?rt = "(policy 2)\<lparr>retryIf := (\<lambda>resp err. True)\<rparr>"
  let ?req = "get_request (deadline_at 10000000000)"
  let ?end = "start\<lparr>now := 330, drawn := 2,
            trace := [Sent ?req 0, Sent ?req 110, Sent ?req 320]\<rparr>"
  have run: "RoundTrip (retryTransport (Transport refusing) ?rt) ?req start
       = ((None, Some (TransportError ''connection refused'')), ?end)"
    by (simp add: retry_loop.simps step_defs scenario_defs)
  have live: "ctx_Err (ctx ?req) (snd (RoundTrip (retryTransport (Transport refusing) ?rt) ?req start)) = None"
    unfolding run by (simp add: ctx_Err_def scenario_defs)
  have n: "0 \<le> maxRetries ?rt" by (simp add: policy_def)
  have fails: "\<And>r v. snd (fst (refusing r v)) \<noteq> None" by (simp add: refusing_def)
  from always_failing_transport_invoked_N_plus_1_times[of ?rt refusing ?req start, OF n _ fails live]
  have "invocations (snd (RoundTrip (retryTransport (Transport refusing) ?rt) ?req start)) = 3"
    by (auto simp: invocations_def start_def policy_def)
  then show ?thesis using run live n by simp
qed

text \<open>
  C10, as amended. When the executor returns from its context check (line 42) or from
  the wait (line 62), the response is nil and the error is the context's error, which
  the context reports in the final world. A response that is not nil is returned only
  together with the error and the world of an invocation of the base transport: the
  executor passes that pair on as it is. So the caller receives a response paired with
  an error only when the base transport returned that pair, and never when the base
  transport returns no response together with an error.
\<close>

theorem retry_RoundTrip_response_with_error:
  assumes run: "RoundTrip (retryTransport b rt) req w = ((resp, err), w')"
  shows "((fst (retry_loop (RoundTrip b) rt req 0 (None, None) w) = AtContextCheck
           \<or> fst (retry_loop (RoundTrip b) rt req 0 (None, None) w) = DuringWait)
          \<longrightarrow> resp = None \<and> err = Some (done_err (ctx req)) \<and> ctx_Err (ctx req) w' = err)
     \<and> (resp \<noteq> None \<longrightarrow> (\<exists>v. RoundTrip b req v = ((resp, err), w')))
     \<and> ((\<forall>q v. fst (fst (RoundTrip b q v)) \<noteq> None \<longrightarrow> snd (fst (RoundTrip b q v)) = None)
          \<longrightarrow> err \<noteq> None \<longrightarrow> resp = None)"
proof -
  obtain ex where loop: "retry_loop (RoundTrip b) rt req 0 (None, None) w = (ex, (resp, err), w')"
    using run by (cases "retry_loop (RoundTrip b) rt req 0 (None, None) w")
      (simp add: retry_RoundTrip_def)
  note out = retry_loop_outcome[OF loop]
  have ex: "fst (retry_loop (RoundTrip b) rt req 0 (None, None) w) = ex"
    using loop by simp
  have c1: "(ex = AtContextCheck \<or> ex = DuringWait)
          \<longrightarrow> resp = None \<and> err = Some (done_err (ctx req)) \<and> ctx_Err (ctx req) w' = err"
    using out by auto
  have c2: "resp \<noteq> None \<longrightarrow> (\<exists>v. RoundTrip b req v = ((resp, err), w'))"
    using out by auto
  have c3: "(\<forall>q v. fst (fst (RoundTrip b q v)) \<noteq> None \<longrightarrow> snd (fst (RoundTrip b q v)) = None)
          \<longrightarrow> err \<noteq> None \<longrightarrow> resp = None"
  proof (intro impI)
    assume contract: "\<forall>q v. fst (fst (RoundTrip b q v)) \<noteq> None \<longrightarrow> snd (fst (RoundTrip b q v)) = None"
      and e: "err \<noteq> None"
    show "resp = None"
    proof (rule ccontr)
      assume r: "resp \<noteq> None"
      with c2 obtain v where "RoundTrip b req v = ((resp, err), w')" by blast
      then have "fst (fst (RoundTrip b req v)) = resp" "snd (fst (RoundTrip b req v)) = err"
        by simp_all
      with contract r e show False by metis
    qed
  qed
  show ?thesis unfolding ex using c1 c2 c3 by blast
qed

text \<open>
  The instance: three retries planned, a transport answering 503 and the context
  cancelled at instant 50, during the wait after the first attempt: the executor
  returns from the wait, with a nil response and the cancellation error.
\<close>

theorem retry_RoundTrip_response_with_error_witness:
  "RoundTrip (retryTransport (Transport unavailable) (policy 3)) (get_request (cancelled_at 50)) start
     = ((None, Some Canceled),
        start\<lparr>now := 50, drawn := 1, trace := [Sent (get_request (cancelled_at 50)) 0]\<rparr>)
   \<and> fst (retry_loop (RoundTrip (Transport unavailable)) (policy 3)
             (get_request (cancelled_at 50)) 0 (None, None) start) = DuringWait
   \<and> ctx_Err (ctx (get_request (cancelled_at 50)))
        (start\<lparr>now := 50, drawn := 1, trace := [Sent (get_request (cancelled_at 50)) 0]\<rparr>)
       = Some Canceled"
proof -
  let ?req = "get_request (cancelled_at 50)"
  let ?end = "start\<lparr>now := 50, drawn := 1, trace := [Sent ?req 0]\<rparr>"
  obtain resp err where run:
    "RoundTrip (retryTransport (Transport unavailable) (policy 3)) ?req start = ((resp, err), ?end)"
    by (simp add: retry_loop.simps step_defs scenario_defs)
  have label: "fst (retry_loop (RoundTrip (Transport unavailable)) (policy 3) ?req 0
                 (None, None) start) = DuringWait"
    by (simp add: retry_loop.simps step_defs scenario_defs)
  from retry_RoundTrip_response_with_error[OF run] label
  have "resp = None \<and> err = Some (done_err (ctx ?req)) \<and> ctx_Err (ctx ?req) ?end = err"
    by simp
  then show ?thesis using run label by (simp add: scenario_defs)
qed

text \<open>
  The claim as stated says that the caller never receives a response paired with a
  cancellation error. One retry planned, the context cancelled at instant 115, and a
  transport that answers 503 after 10ns and adds the context's error when the context
  has ended during the exchange: the first reply is retried, the second exchange (from
  instant 110 to 120) is the last attempt, and the executor returns its reply as it is,
  a response together with the cancellation error.
\<close>

theorem response_with_cancellation_error_counterexample:
  "RoundTrip (retryTransport (Transport interrupted) (policy 1)) (get_request (cancelled_at 115)) start
     = ((Some \<lparr>StatusCode = 503, Body = Some 2\<rparr>, Some Canceled),
        start\<lparr>now := 120, drawn := 1,
          trace := [Sent (get_request (cancelled_at 115)) 0, Closed 0,
                    Sent (get_request (cancelled_at 115)) 110]\<rparr>)"
  by (simp add: retry_loop.simps step_defs scenario_defs)

text \<open>On the path where the timer fires, the body of the response is closed once.\<close>

lemma iteration_body_Continue_closes:
  assumes "iteration_body (exchange f) rt req attempt w = Continue (Some r, err) w'"
    and "Body r = Some b"
  shows "trace w' = trace w @ [Sent req (now w), Closed b]"
proof -
  obtain resp0 err0 w1 where ex: "exchange f req w = ((resp0, err0), w1)"
    by (metis surj_pair)
  obtain d w2 where bo: "calculateBackoff rt attempt w1 = (d, w2)"
    by (metis surj_pair)
  obtain s w3 where sel: "select_wait (ctx req) d w2 = (s, w3)"
    by (metis surj_pair)
  have t3: "trace w3 = trace w @ [Sent req (now w)]"
    using exchange_effect[OF ex] trace_select_wait[OF sel] trace_calculateBackoff[OF bo] by simp
  show ?thesis
    using assms ex bo sel t3
    by (cases s) (auto simp: iteration_body_def Body_Close_def split: option.splits if_splits)
qed

text \<open>
  C1. The claim fails on the path it names. One retry planned, a transport answering
  503 with body 0 after 10ns, a backoff of 100ns, and the context cancelled at instant
  50, during the wait: the executor returns a nil response with the cancellation error,
  and the trace holds the one request and no \<^verbatim>\<open>Close\<close>: the body of the discarded
  response stays open. With a context that is never cancelled the same body is closed
  once before the second request, and only the body of the response returned is open.
\<close>

theorem discarded_body_not_closed_when_wait_is_cancelled:
  "fst (exchange unavailable (get_request (cancelled_at 50)) start)
     = (Some \<lparr>StatusCode = 503, Body = Some 0\<rparr>, None)
   \<and> RoundTrip (retryTransport (Transport unavailable) (policy 1)) (get_request (cancelled_at 50)) start
     = ((None, Some Canceled),
        start\<lparr>now := 50, drawn := 1, trace := [Sent (get_request (cancelled_at 50)) 0]\<rparr>)
   \<and> Closed 0 \<notin> set [Sent (get_request (cancelled_at 50)) 0]
   \<and> RoundTrip (retryTransport (Transport unavailable) (policy 1)) (get_request background) start
     = ((Some \<lparr>StatusCode = 503, Body = Some 2\<rparr>, None),
        start\<lparr>now := 120, drawn := 1,
          trace := [Sent (get_request background) 0, Closed 0, Sent (get_request background) 110]\<rparr>)"
  by (simp add: retry_loop.simps step_defs scenario_defs)

section \<open>Properties of the middleware chain\<close>

lemma wrap_take:
  "k \<le> length ms \<Longrightarrow> wrap ms k rt = foldr (\<lambda>m t. m t) (take k ms) rt"
proof (induction k arbitrary: rt)
  case 0
  then show ?case by simp
next
  case (Suc k)
  then have "take (Suc k) ms = take k ms @ [ms ! k]"
    by (simp add: take_Suc_conv_app_nth)
  with Suc show ?case by simp
qed

lemma wrap_all: "k = length ms \<Longrightarrow> wrap ms k rt = foldr (\<lambda>m t. m t) ms rt"
  by (simp add: wrap_take)

lemma RoundTrip_marking_one:
  "RoundTrip (marking n t) req w = RoundTrip t (req\<lparr>Header := Header req @ [(''X-Marker'', n)]\<rparr>) w"
  by (simp add: marking_def)

lemma RoundTrip_marking:
  "RoundTrip (foldr (\<lambda>m t. m t) (map marking names) t) req w
     = RoundTrip t (req\<lparr>Header := Header req @ map (Pair ''X-Marker'') names\<rparr>) w"
proof (induction names arbitrary: req)
  case Nil
  show ?case by simp
next
  case (Cons n names)
  show ?case by (simp add: RoundTrip_marking_one Cons.IH)
qed

text \<open>
  C8. The chain built is the boundary \<open>middlewareTransport\<close> around the middlewares
  applied to the inner transport, the first declared outermost; the inner transport is
  the retry executor around the base transport when \<open>MaxRetries > 0\<close> (with the
  options' backoffs and predicate, the default predicate for a nil one) and the base
  transport itself otherwise. Declaring one more middleware in front wraps it around
  what was beneath the boundary before. The boundary's \<^verbatim>\<open>RoundTrip\<close> is that of the
  transport it wraps. With marking middlewares and no retry, the request that reaches
  the base transport carries the markers in declared order: for \<open>[A, B]\<close>, A's marker
  before B's.
\<close>

theorem buildMiddlewareChain_layers:
  "buildMiddlewareChain b opts =
     middlewareTransport
       (foldr (\<lambda>m t. m t) (Middlewares opts)
          (if MaxRetries opts > 0
           then retryTransport b
                  \<lparr>maxRetries = MaxRetries opts,
                   minBackoff = RetryMinBackoff opts,
                   maxBackoff = RetryMaxBackoff opts,
                   retryIf = (case RetryIf opts of None \<Rightarrow> DefaultRetryIf | Some p \<Rightarrow> p)\<rparr>
           else b))
   \<and> buildMiddlewareChain b (opts\<lparr>Middlewares := m # ms\<rparr>)
       = middlewareTransport (m (base (buildMiddlewareChain b (opts\<lparr>Middlewares := ms\<rparr>))))
   \<and> RoundTrip (middlewareTransport t) req w = RoundTrip t req w
   \<and> RoundTrip (buildMiddlewareChain (Transport f)
        (opts\<lparr>MaxRetries := 0, Middlewares := map marking names\<rparr>)) req w
       = exchange f (req\<lparr>Header := Header req @ map (Pair ''X-Marker'') names\<rparr>) w
   \<and> RoundTrip (buildMiddlewareChain (Transport f)
        (opts\<lparr>MaxRetries := 0, Middlewares := [marking ''A'', marking ''B'']\<rparr>)) req w
       = exchange f (req\<lparr>Header := Header req @ [(''X-Marker'', ''A''), (''X-Marker'', ''B'')]\<rparr>) w"
proof -
  have shape: "\<And>o'. buildMiddlewareChain b o' =
     middlewareTransport
       (foldr (\<lambda>m t. m t) (Middlewares o')
          (if MaxRetries o' > 0
           then retryTransport b
                  \<lparr>maxRetries = MaxRetries o',
                   minBackoff = RetryMinBackoff o',
                   maxBackoff = RetryMaxBackoff o',
                   retryIf = (case RetryIf o' of None \<Rightarrow> DefaultRetryIf | Some p \<Rightarrow> p)\<rparr>
           else b))"
    by (simp add: buildMiddlewareChain_def wrap_all Let_def)
  have outer: "buildMiddlewareChain b (opts\<lparr>Middlewares := m # ms\<rparr>)
       = middlewareTransport (m (base (buildMiddlewareChain b (opts\<lparr>Middlewares := ms\<rparr>))))"
    by (simp add: shape)
  have markers: "\<And>ns. RoundTrip (buildMiddlewareChain (Transport f)
        (opts\<lparr>MaxRetries := 0, Middlewares := map marking ns\<rparr>)) req w
       = exchange f (req\<lparr>Header := Header req @ map (Pair ''X-Marker'') ns\<rparr>) w"
    by (simp add: buildMiddlewareChain_def wrap_all Let_def RoundTrip_marking)
  from markers[of "[''A'', ''B'']"] have ab: "RoundTrip (buildMiddlewareChain (Transport f)
        (opts\<lparr>MaxRetries := 0, Middlewares := [marking ''A'', marking ''B'']\<rparr>)) req w
       = exchange f (req\<lparr>Header := Header req @ [(''X-Marker'', ''A''), (''X-Marker'', ''B'')]\<rparr>) w"
    by simp
  show ?thesis using shape[of opts] outer markers[of names] ab by simp
qed

section \<open>Properties of the timeout middleware\<close>

lemma WithTimeout_live:
  assumes "WithTimeout parent timeout w = (c, w1)" and "now w \<le> t"
  shows "live_at c t
         = (live_at parent t \<and> t < now w + timeout + int (latency w (now w + timeout)))"
  using assms
  by (auto simp: WithTimeout_def live_at_def Let_def split: option.splits if_splits)

text \<open>
  C9. \<^verbatim>\<open>TimeoutMiddleware\<close> derives a context from the request's context. While the
  delegated call runs, from the call of the middleware to the return of the next
  transport, the derived context is live exactly while the request's context is live and
  the timeout, with the latency of its timer, has not passed: the earlier of the two ends
  governs. The middleware hands the next transport the request with only the context
  replaced, returns what the next transport returns, whatever that is, and the last
  thing it does is to call the cancel function of the derived context.
\<close>

theorem TimeoutMiddleware_derives_delegates_releases:
  "\<exists>c w1. WithTimeout (ctx req) timeout w = (c, w1)
     \<and> trace w1 = trace w @ [Derived c] \<and> now w1 = now w
     \<and> (\<forall>t. now w \<le> t \<longrightarrow> t \<le> now (snd (RoundTrip next (req\<lparr>ctx := c\<rparr>) w1)) \<longrightarrow>
            live_at c t
            = (live_at (ctx req) t \<and> t < now w + timeout + int (latency w (now w + timeout))))
     \<and> Method (req\<lparr>ctx := c\<rparr>) = Method req \<and> URL (req\<lparr>ctx := c\<rparr>) = URL req
     \<and> Header (req\<lparr>ctx := c\<rparr>) = Header req
     \<and> RoundTrip (TimeoutMiddleware timeout next) req w
         = (fst (RoundTrip next (req\<lparr>ctx := c\<rparr>) w1),
            cancel c (snd (RoundTrip next (req\<lparr>ctx := c\<rparr>) w1)))
     \<and> trace (snd (RoundTrip (TimeoutMiddleware timeout next) req w))
         = trace (snd (RoundTrip next (req\<lparr>ctx := c\<rparr>) w1)) @ [Released c]"
proof -
  obtain c w1 where wt: "WithTimeout (ctx req) timeout w = (c, w1)"
    by (metis surj_pair)
  have w1: "trace w1 = trace w @ [Derived c]" "now w1 = now w"
    using wt by (auto simp: WithTimeout_def Let_def)
  have live: "\<forall>t. now w \<le> t \<longrightarrow> t \<le> now (snd (RoundTrip next (req\<lparr>ctx := c\<rparr>) w1)) \<longrightarrow>
            live_at c t
            = (live_at (ctx req) t \<and> t < now w + timeout + int (latency w (now w + timeout)))"
    using WithTimeout_live[OF wt] by blast
  have rt: "RoundTrip (TimeoutMiddleware timeout next) req w
         = (fst (RoundTrip next (req\<lparr>ctx := c\<rparr>) w1),
            cancel c (snd (RoundTrip next (req\<lparr>ctx := c\<rparr>) w1)))"
    using wt by (simp add: TimeoutMiddleware_def split: prod.splits)
  have rel: "trace (snd (RoundTrip (TimeoutMiddleware timeout next) req w))
         = trace (snd (RoundTrip next (req\<lparr>ctx := c\<rparr>) w1)) @ [Released c]"
    unfolding rt by (simp add: cancel_def)
  show ?thesis using wt w1 live rt rel by simp
qed

text \<open>
  The instance: a timeout of 30ns around the retry executor (three retries, backoff
  100ns) over a transport answering 503 after 10ns, under the background context. The
  derived context ends at instant 30, during the wait after the first attempt: the
  executor returns its deadline error at instant 30, and the middleware has released
  the context.
\<close>

theorem TimeoutMiddleware_derives_delegates_releases_witness:
  "RoundTrip (TimeoutMiddleware 30 (retryTransport (Transport unavailable) (policy 3)))
      (get_request background) start
     = ((None, Some DeadlineExceeded),
        start\<lparr>now := 30, drawn := 1,
          trace := [Derived (deadline_at 30),
                    Sent (get_request (deadline_at 30)) 0,
                    Released (deadline_at 30)]\<rparr>)
   \<and> live_at (deadline_at 30) 29
   \<and> \<not> live_at (deadline_at 30) 30"
proof -
  let ?next = "retryTransport (Transport unavailable) (policy 3)"
  have wt0: "WithTimeout (ctx (get_request background)) 30 start
               = (deadline_at 30, start\<lparr>trace := [Derived (deadline_at 30)]\<rparr>)"
    by (simp add: WithTimeout_def Let_def scenario_defs)
  have inner: "RoundTrip ?next ((get_request background)\<lparr>ctx := deadline_at 30\<rparr>)
                 (start\<lparr>trace := [Derived (deadline_at 30)]\<rparr>)
     = ((None, Some DeadlineExceeded),
        start\<lparr>now := 30, drawn := 1,
          trace := [Derived (deadline_at 30), Sent (get_request (deadline_at 30)) 0]\<rparr>)"
    by (simp add: retry_loop.simps step_defs scenario_defs)
  obtain c w1 where wt: "WithTimeout (ctx (get_request background)) 30 start = (c, w1)"
    and live: "\<forall>t. now start \<le> t \<longrightarrow> t \<le> now (snd (RoundTrip ?next ((get_request background)\<lparr>ctx := c\<rparr>) w1)) \<longrightarrow>
                 live_at c t = (live_at (ctx (get_request background)) t
                    \<and> t < now start + 30 + int (latency start (now start + 30)))"
    and rt: "RoundTrip (TimeoutMiddleware 30 ?next) (get_request background) start
         = (fst (RoundTrip ?next ((get_request background)\<lparr>ctx := c\<rparr>) w1),
            cancel c (snd (RoundTrip ?next ((get_request background)\<lparr>ctx := c\<rparr>) w1)))"
    using TimeoutMiddleware_derives_delegates_releases
            [of "get_request background" 30 start ?next]
    by blast
  have c: "c = deadline_at 30" "w1 = start\<lparr>trace := [Derived (deadline_at 30)]\<rparr>"
    using wt unfolding wt0 by auto
  have span: "now (snd (RoundTrip ?next ((get_request background)\<lparr>ctx := c\<rparr>) w1)) = 30"
    unfolding c inner by simp
  have l: "live_at c 29" "\<not> live_at c 30"
    using live span by (simp_all add: live_at_def scenario_defs)
  have run: "RoundTrip (TimeoutMiddleware 30 ?next) (get_request background) start
     = ((None, Some DeadlineExceeded),
        start\<lparr>now := 30, drawn := 1,
          trace := [Derived (deadline_at 30),
                    Sent (get_request (deadline_at 30)) 0,
                    Released (deadline_at 30)]\<rparr>)"
    unfolding rt c inner by (simp add: cancel_def)
  show ?thesis using run l c by simp
qed

end
